theory Spec2Isabelle
  imports Main
begin

section \<open>Data model\<close>

text \<open>
  The TypeScript interfaces of the orders table component. A TypeScript \<open>number\<close> is a
  binary64 floating-point value. The amounts and quantities come from integer columns,
  and every integer of such a column is a binary64 value, so a field holds the integer
  it was read as. What the component computes from the fields is a \<open>number\<close> again and
  is rounded as the language rounds it (section Numbers).
\<close>

record OrderItem =
  product_name :: string
  price :: int
  quantity :: int

text \<open>
  One row of the \<open>orders\<close> table, with the eleven columns that \<open>fetchOrders\<close> selects.
  The column \<open>id\<close> is called \<open>id'\<close> here, since \<open>id\<close> is the identity function of HOL.
\<close>

record order_row =
  id' :: string
  order_token :: string
  name :: string
  phone :: string
  email :: string
  special_instructions :: string
  payment_proof_url :: "string option"
  payment_method :: string
  created_at :: string
  delivery_fee :: int
  total_amount :: int

text \<open>The interface \<open>Order\<close>: a row together with its items.\<close>

record Order = order_row +
  items :: "OrderItem list"

section \<open>Numbers\<close>

text \<open>
  The results of \<open>+\<close> and \<open>*\<close> on integers, as binary64 arithmetic gives them. Sums
  and products of integers are integers, and a binary64 value of magnitude \<open>2 ^ 52\<close> or
  more is an integer, so a finite result is kept as the integer it is: \<open>Num\<close>. The two
  zeros are not told apart (they are displayed alike and add alike).
\<close>

datatype number = Num int | Infinity | NegInfinity | NaN

text \<open>
  The distance between neighbouring binary64 values at the magnitude \<open>m\<close>: 1 below
  \<open>2 ^ 53\<close> (53 bits of significand), and doubling with every further bit.
\<close>

fun ulp :: "nat \<Rightarrow> nat" where
  "ulp m = (if m < 2 ^ 53 then 1 else 2 * ulp (m div 2))"

declare ulp.simps [simp del]

text \<open>Rounding to the nearest binary64 value, a tie going to the even significand.\<close>

definition round_nat :: "nat \<Rightarrow> nat" where
  "round_nat m =
     (let u = ulp m; q = m div u; r = m mod u
      in if 2 * r < u then q * u
         else if u < 2 * r then (q + 1) * u
         else if even q then q * u else (q + 1) * u)"

text \<open>
  The binary64 value of an exact integer result: rounded, and infinite when the rounded
  magnitude reaches \<open>2 ^ 1024\<close>.
\<close>

definition round64 :: "int \<Rightarrow> number" where
  "round64 x =
     (let v = round_nat (nat \<bar>x\<bar>)
      in if 2 ^ 1024 \<le> v then (if x < 0 then NegInfinity else Infinity)
         else Num (if x < 0 then - int v else int v))"

text \<open>\<open>a * b\<close> for two fields, and \<open>x + y\<close> for two numbers.\<close>

definition js_mul :: "int \<Rightarrow> int \<Rightarrow> number" where
  "js_mul a b = round64 (a * b)"

fun js_add :: "number \<Rightarrow> number \<Rightarrow> number" where
  "js_add (Num a) (Num b) = round64 (a + b)"
| "js_add NaN y = NaN"
| "js_add x NaN = NaN"
| "js_add Infinity NegInfinity = NaN"
| "js_add NegInfinity Infinity = NaN"
| "js_add Infinity y = Infinity"
| "js_add x Infinity = Infinity"
| "js_add NegInfinity y = NegInfinity"
| "js_add x NegInfinity = NegInfinity"

section \<open>The subtotal\<close>

text \<open>
  \<^verbatim>\<open>items.reduce((sum, item) => sum + item.price * item.quantity, 0)\<close>:
  a left fold from 0, each product and each sum rounded.
\<close>

definition calculateSubtotal :: "OrderItem list \<Rightarrow> number" where
  "calculateSubtotal its =
     foldl (\<lambda>sum item. js_add sum (js_mul (price item) (quantity item))) (Num 0) its"

section \<open>The data-access boundary\<close>

text \<open>
  The component reaches the hosted data store through a query client. A query that is
  awaited resolves to the pair \<open>{ data, error }\<close>, or the \<open>await\<close> throws (the promise is
  rejected), which is what the \<open>try\<close>/\<open>catch\<close> blocks of the component are for.
\<close>

datatype db_error = TransportError | MultipleRows | UniqueViolation

datatype 'a response = Response (data: "'a option") (err: "db_error option")

datatype 'a awaited = Resolved 'a | Rejected

text \<open>What a \<open>catch\<close> block receives, and what \<open>console.error\<close> is given: a label and it.\<close>

datatype js_exn = Thrown db_error | Rejection

type_synonym console_entry = "string \<times> js_exn"

text \<open>The queries the component issues, with the arguments it passes.\<close>

datatype query =
    SelectOrders string bool
  | SelectOrderItems string
  | SelectSettingValue string
  | SelectSettingId string
  | UpdateSetting string string string
  | InsertSetting string string string

text \<open>
  The result of running an asynchronous handler to its end: the component state after
  its last state update, the queries it issued in order, and what it wrote to the console.
\<close>

record 's run =
  final :: 's
  issued :: "query list"
  console :: "console_entry list"

section \<open>The orders table component\<close>

record OrdersTable_state =
  orders :: "Order list"
  loading :: bool
  error :: "string option"
  expandedOrderId :: "string option"

text \<open>The four \<open>useState\<close> initial values.\<close>

definition initial_state :: OrdersTable_state where
  "initial_state = \<lparr>orders = [], loading = True, error = None, expandedOrderId = None\<rparr>"

text \<open>\<^verbatim>\<open>{ ...order, items: itemsData || [] }\<close>: an array, even an empty one, is truthy.\<close>

definition with_items :: "order_row \<Rightarrow> OrderItem list option \<Rightarrow> Order" where
  "with_items order itemsData =
     order_row.extend order
       (Order.fields (case itemsData of Some its \<Rightarrow> its | None \<Rightarrow> []))"

text \<open>
  The asynchronous callback mapped over \<open>ordersData\<close>: it awaits the item query of the
  order, reads \<open>data\<close> only (the \<open>error\<close> of the response is not looked at), and returns
  the joined record. It is rejected when the awaited query is.
\<close>

definition join_items :: "(string \<Rightarrow> OrderItem list response awaited) \<Rightarrow> order_row \<Rightarrow> Order awaited" where
  "join_items items_query order =
     (case items_query (id' order) of
        Rejected \<Rightarrow> Rejected
      | Resolved r \<Rightarrow> Resolved (with_items order (data r)))"

text \<open>
  \<open>Promise.all\<close>, as the language defines it: it keeps one slot per input promise; a
  promise that is fulfilled writes its value into the slot of its own position, and the
  first promise that is rejected rejects the whole. The list \<open>settling\<close> gives the
  positions in the order in which the promises settle. Once all slots are filled the
  result is fulfilled with them; the result is \<open>None\<close> when a promise never settles,
  as the \<open>await\<close> on it then never resumes.
\<close>

fun Promise_all_from :: "nat list \<Rightarrow> 'a awaited list \<Rightarrow> 'a option list \<Rightarrow> 'a list awaited option" where
  "Promise_all_from [] ps slots =
     (case those slots of None \<Rightarrow> None | Some vs \<Rightarrow> Some (Resolved vs))"
| "Promise_all_from (i # rest) ps slots =
     (if i < length ps then
        (case ps ! i of
           Rejected \<Rightarrow> Some Rejected
         | Resolved x \<Rightarrow> Promise_all_from rest ps (slots[i := Some x]))
      else Promise_all_from rest ps slots)"

definition Promise_all :: "nat list \<Rightarrow> 'a awaited list \<Rightarrow> 'a list awaited option" where
  "Promise_all settling ps = Promise_all_from settling ps (replicate (length ps) None)"

text \<open>
  The top-level query: \<^verbatim>\<open>.order('created_at', { ascending: false })\<close> on \<open>orders\<close>.
\<close>

definition orders_query :: query where
  "orders_query = SelectOrders ''created_at'' False"

text \<open>
  \<open>fetchOrders\<close>, given what the orders query and the item query of each order id settle
  to, and the order \<open>settling\<close> in which the item queries settle. The \<open>finally\<close> block
  makes \<open>setLoading(false)\<close> the last update on every path. All item queries are issued
  before the first of them is awaited, so they appear in \<open>issued\<close> also when one of them
  is rejected. The result is \<open>None\<close> when the function never gets to its end.
\<close>

definition fetchOrders ::
  "nat list \<Rightarrow> order_row list response awaited \<Rightarrow>
   (string \<Rightarrow> OrderItem list response awaited) \<Rightarrow>
   OrdersTable_state \<Rightarrow> OrdersTable_state run option" where
  "fetchOrders settling orders_result items_query st =
     (let st1 = st\<lparr>loading := True, error := None\<rparr>;
          caught = (\<lambda>qs. \<lparr>final = st1\<lparr>error := Some ''Something went wrong while fetching orders'',
                                        loading := False\<rparr>,
                           issued = qs, console = [(''Error:'', Rejection)]\<rparr>)
      in case orders_result of
           Rejected \<Rightarrow> Some (caught [orders_query])
         | Resolved (Response ordersData ordersError) \<Rightarrow>
             (case ordersError of
                Some e \<Rightarrow>
                  Some \<lparr>final = st1\<lparr>error := Some ''Failed to fetch orders'', loading := False\<rparr>,
                        issued = [orders_query], console = []\<rparr>
              | None \<Rightarrow>
                  (case ordersData of
                     None \<Rightarrow>
                       Some \<lparr>final = st1\<lparr>orders := [], loading := False\<rparr>,
                             issued = [orders_query], console = []\<rparr>
                   | Some rows \<Rightarrow>
                       (let qs = orders_query # map (\<lambda>order. SelectOrderItems (id' order)) rows
                        in case Promise_all settling (map (join_items items_query) rows) of
                             None \<Rightarrow> None
                           | Some Rejected \<Rightarrow> Some (caught qs)
                           | Some (Resolved ordersWithItems) \<Rightarrow>
                               Some \<lparr>final = st1\<lparr>orders := ordersWithItems, loading := False\<rparr>,
                                     issued = qs, console = []\<rparr>))))"

text \<open>
  The click handler of a row:
  \<^verbatim>\<open>setExpandedOrderId(expandedOrderId === order.id ? null : order.id)\<close>.
\<close>

definition toggle :: "string \<Rightarrow> OrdersTable_state \<Rightarrow> OrdersTable_state" where
  "toggle oid st =
     st\<lparr>expandedOrderId := (if expandedOrderId st = Some oid then None else Some oid)\<rparr>"

text \<open>\<^verbatim>\<open>expandedOrderId === order.id\<close>: the test that shows the details of a row.\<close>

definition is_expanded :: "OrdersTable_state \<Rightarrow> string \<Rightarrow> bool" where
  "is_expanded st oid = (expandedOrderId st = Some oid)"

subsection \<open>What the component renders\<close>

text \<open>
  The rendered tree, reduced to the values it displays. Dates are kept as the stored
  string (\<open>formatDate\<close> depends on the locale and is not modelled). A string is shown by
  \<open>s && ...\<close> only when it is not empty.
\<close>

record item_line =
  line_product :: string
  line_price :: int
  line_quantity :: int
  line_total :: number

record details_view =
  customer :: "string \<times> string \<times> string"
  shown_instructions :: "string option"
  item_lines :: "item_line list"
  shown_subtotal :: number
  shown_delivery_fee :: "int option"
  shown_total :: int
  payment_proof_link :: "string option"

record row_view =
  header_name :: string
  header_token :: string
  header_created_at :: string
  header_total :: int
  header_payment_method :: string
  chevron_up :: bool
  details :: "details_view option"

datatype view = Spinner | ErrorBox string | NoOrders | OrderRows "row_view list"

definition render_item :: "OrderItem \<Rightarrow> item_line" where
  "render_item item =
     \<lparr>line_product = product_name item, line_price = price item,
      line_quantity = quantity item, line_total = js_mul (price item) (quantity item)\<rparr>"

definition render_details :: "Order \<Rightarrow> details_view" where
  "render_details order =
     \<lparr>customer = (name order, phone order, email order),
      shown_instructions =
        (if special_instructions order \<noteq> [] then Some (special_instructions order) else None),
      item_lines = map render_item (items order),
      shown_subtotal = calculateSubtotal (items order),
      shown_delivery_fee = (if delivery_fee order > 0 then Some (delivery_fee order) else None),
      shown_total = total_amount order,
      payment_proof_link =
        (case payment_proof_url order of
           None \<Rightarrow> None
         | Some url \<Rightarrow> if url \<noteq> [] then Some url else None)\<rparr>"

definition render_order :: "OrdersTable_state \<Rightarrow> Order \<Rightarrow> row_view" where
  "render_order st order =
     \<lparr>header_name = name order,
      header_token = order_token order,
      header_created_at = created_at order,
      header_total = total_amount order,
      header_payment_method = payment_method order,
      chevron_up = is_expanded st (id' order),
      details = (if is_expanded st (id' order) then Some (render_details order) else None)\<rparr>"

definition render :: "OrdersTable_state \<Rightarrow> view" where
  "render st =
     (if loading st then Spinner
      else case error st of
             Some e \<Rightarrow> if e \<noteq> [] then ErrorBox e
                       else if orders st = [] then NoOrders
                       else OrderRows (map (render_order st) (orders st))
           | None \<Rightarrow> if orders st = [] then NoOrders
                     else OrderRows (map (render_order st) (orders st)))"

section \<open>The data store\<close>

text \<open>
  Modelled from the spec: the hosted data store behind the query client, which is not
  part of the repository. The spec gives it as a generic query interface (select, filter,
  order, insert, update), each call returning a result set or an error, over the tables
  \<open>orders\<close>, \<open>order_items\<close> and \<open>settings\<close>, where \<open>settings.key\<close> is unique.
\<close>

text \<open>
  Modelled from the spec: the select on \<open>orders\<close> ordered by \<open>created_at\<close>, newest first
  when \<open>ascending\<close> is false. The column is a timestamp that reaches the component as a
  string; \<open>instant\<close> gives the point in time a stored string denotes. Rows with the same
  instant come in no promised order (here: the stable order of \<open>sort_key\<close>).
\<close>

definition select_orders :: "(string \<Rightarrow> int) \<Rightarrow> bool \<Rightarrow> order_row list \<Rightarrow> order_row list response" where
  "select_orders instant ascending tbl =
     Response
       (Some (sort_key (\<lambda>r. if ascending then instant (created_at r) else - instant (created_at r)) tbl))
       None"

record setting =
  setting_id :: string
  key :: string
  "value" :: string
  description :: "string option"
  updated_at :: string

text \<open>
  Modelled from the spec: \<open>maybeSingle\<close> on the rows a filter leaves. No row is a valid
  answer with no data and no error, one row is that row, more rows are an error.
\<close>

definition maybeSingle :: "'a list \<Rightarrow> 'a response" where
  "maybeSingle rows =
     (case rows of
        [] \<Rightarrow> Response None None
      | [r] \<Rightarrow> Response (Some r) None
      | _ \<Rightarrow> Response None (Some MultipleRows))"

definition with_key :: "string \<Rightarrow> setting list \<Rightarrow> setting list" where
  "with_key k tbl = filter (\<lambda>s. key s = k) tbl"

definition select_value :: "setting list \<Rightarrow> string \<Rightarrow> string response" where
  "select_value tbl k = maybeSingle (map value (with_key k tbl))"

definition select_id :: "setting list \<Rightarrow> string \<Rightarrow> string response" where
  "select_id tbl k = maybeSingle (map setting_id (with_key k tbl))"

text \<open>
  Modelled from the spec: the update of \<open>value\<close> and \<open>updated_at\<close> on every row with the
  key, and the insert of a row with \<open>key\<close>, \<open>value\<close> and \<open>description\<close>. The store fills
  the columns \<open>id\<close> and \<open>updated_at\<close> of a new row itself (\<open>fresh_id\<close>, \<open>store_now\<close>), and
  refuses a second row with a key that is already there (the unique constraint).
\<close>

definition update_setting :: "setting list \<Rightarrow> string \<Rightarrow> string \<Rightarrow> string \<Rightarrow> setting list \<times> unit response" where
  "update_setting tbl k v ts =
     (map (\<lambda>s. if key s = k then s\<lparr>value := v, updated_at := ts\<rparr> else s) tbl,
      Response None None)"

definition insert_setting ::
  "string \<Rightarrow> string \<Rightarrow> setting list \<Rightarrow> string \<Rightarrow> string \<Rightarrow> string \<Rightarrow> setting list \<times> unit response" where
  "insert_setting fresh_id store_now tbl k v d =
     (if with_key k tbl \<noteq> [] then (tbl, Response None (Some UniqueViolation))
      else (tbl @ [\<lparr>setting_id = fresh_id, key = k, value = v, description = Some d,
                    updated_at = store_now\<rparr>],
            Response None None))"

text \<open>
  Modelled from the spec: a call can fail on its way to the store. It then resolves to
  an error with no data, or the awaited promise is rejected, and a write that failed so
  leaves the table as it was.
\<close>

datatype fault = ReturnsError db_error | Rejects

definition reading :: "fault option \<Rightarrow> 'a response \<Rightarrow> 'a response awaited" where
  "reading f r =
     (case f of
        None \<Rightarrow> Resolved r
      | Some (ReturnsError e) \<Rightarrow> Resolved (Response None (Some e))
      | Some Rejects \<Rightarrow> Rejected)"

definition writing ::
  "fault option \<Rightarrow> setting list \<Rightarrow> setting list \<times> unit response \<Rightarrow> setting list \<times> unit response awaited" where
  "writing f tbl w =
     (case f of
        None \<Rightarrow> (fst w, Resolved (snd w))
      | Some (ReturnsError e) \<Rightarrow> (tbl, Resolved (Response None (Some e)))
      | Some Rejects \<Rightarrow> (tbl, Rejected))"

section \<open>The admin page\<close>

datatype tab = Settings_tab | Orders_tab

datatype message_type = Success | Error

datatype message = Message (mtype: message_type) (mtext: string)

text \<open>
  The six \<open>useState\<close> cells of \<open>Admin\<close>. Its \<open>loading\<close> is called \<open>saving\<close> here, the
  name \<open>loading\<close> being taken by the orders table.
\<close>

record Admin_state =
  activeTab :: tab
  resendApiKey :: string
  showKey :: bool
  saving :: bool
  message :: "message option"
  fetching :: bool

definition initial_admin :: Admin_state where
  "initial_admin =
     \<lparr>activeTab = Orders_tab, resendApiKey = [], showKey = False, saving = False,
      message = None, fetching = True\<rparr>"

text \<open>
  \<open>loadSettings\<close>, given what the lookup of the key settles to. An error is logged and
  the function returns; a row sets the input value; both paths and the \<open>catch\<close> block end
  with \<open>setFetching(false)\<close>.
\<close>

definition loadSettings :: "string response awaited \<Rightarrow> Admin_state \<Rightarrow> Admin_state run" where
  "loadSettings result st =
     (case result of
        Rejected \<Rightarrow>
          \<lparr>final = st\<lparr>fetching := False\<rparr>,
           issued = [SelectSettingValue ''resend_api_key''],
           console = [(''Error:'', Rejection)]\<rparr>
      | Resolved (Response d e) \<Rightarrow>
          (case e of
             Some er \<Rightarrow>
               \<lparr>final = st\<lparr>fetching := False\<rparr>,
                issued = [SelectSettingValue ''resend_api_key''],
                console = [(''Error loading settings:'', Thrown er)]\<rparr>
           | None \<Rightarrow>
               (case d of
                  Some v \<Rightarrow>
                    \<lparr>final = st\<lparr>resendApiKey := v, fetching := False\<rparr>,
                     issued = [SelectSettingValue ''resend_api_key''],
                     console = []\<rparr>
                | None \<Rightarrow>
                    \<lparr>final = st\<lparr>fetching := False\<rparr>,
                     issued = [SelectSettingValue ''resend_api_key''],
                     console = []\<rparr>)))"

text \<open>
  What one submit of the form meets: a fault of the existence check and of the write
  (if any), the client's clock (\<open>new Date().toISOString()\<close>), and the two values the store
  gives a new row.
\<close>

record save_env =
  check_fault :: "fault option"
  write_fault :: "fault option"
  client_now :: string
  fresh_id :: string
  store_now :: string

text \<open>
  \<open>handleSave\<close> on the settings table \<open>tbl\<close>. The existence check reads \<open>data\<close> only:
  \<open>existsError\<close> is bound and never used. Both writes throw their error, which the
  \<open>catch\<close> block logs and turns into the one failure message.
\<close>

definition handleSave :: "save_env \<Rightarrow> Admin_state \<Rightarrow> setting list \<Rightarrow> Admin_state run \<times> setting list" where
  "handleSave env st tbl =
     (let st1 = st\<lparr>saving := True, message := None\<rparr>;
          k = ''resend_api_key'';
          caught = (\<lambda>ex qs t.
            (\<lparr>final = st1\<lparr>message := Some (Message Error ''Failed to save settings. Please try again.''),
                           saving := False\<rparr>,
              issued = qs, console = [(''Error:'', ex)]\<rparr>, t));
          saved = (\<lambda>qs t.
            (\<lparr>final = st1\<lparr>message := Some (Message Success ''Resend API key saved successfully!''),
                           saving := False\<rparr>,
              issued = qs, console = []\<rparr>, t));
          settle = (\<lambda>qs w.
            case w of
              (t, Rejected) \<Rightarrow> caught Rejection qs t
            | (t, Resolved r) \<Rightarrow>
                (case err r of Some e \<Rightarrow> caught (Thrown e) qs t | None \<Rightarrow> saved qs t))
      in case reading (check_fault env) (select_id tbl k) of
           Rejected \<Rightarrow> caught Rejection [SelectSettingId k] tbl
         | Resolved (Response existingData existsError) \<Rightarrow>
             (case existingData of
                Some _ \<Rightarrow>
                  settle [SelectSettingId k, UpdateSetting k (resendApiKey st) (client_now env)]
                    (writing (write_fault env) tbl
                       (update_setting tbl k (resendApiKey st) (client_now env)))
              | None \<Rightarrow>
                  settle [SelectSettingId k,
                          InsertSetting k (resendApiKey st) ''API key for Resend email service'']
                    (writing (write_fault env) tbl
                       (insert_setting (fresh_id env) (store_now env) tbl k (resendApiKey st)
                          ''API key for Resend email service''))))"

text \<open>
  A sequence of saves: for each, the user types a value into the input
  (\<open>setResendApiKey(e.target.value)\<close>) and submits the form.
\<close>

fun save_all :: "(string \<times> save_env) list \<Rightarrow> Admin_state \<Rightarrow> setting list \<Rightarrow> Admin_state \<times> setting list" where
  "save_all [] st tbl = (st, tbl)"
| "save_all ((v, env) # rest) st tbl =
     (case handleSave env (st\<lparr>resendApiKey := v\<rparr>) tbl of
        (r, tbl') \<Rightarrow> save_all rest (final r) tbl')"

section \<open>Notions used in the statements\<close>

text \<open>A query has failed when its promise is rejected or its response carries an error.\<close>

definition failed :: "'a response awaited \<Rightarrow> bool" where
  "failed a = (case a of Rejected \<Rightarrow> True | Resolved r \<Rightarrow> err r \<noteq> None)"

text \<open>The results of a list of settled promises read off by position.\<close>

fun by_position :: "'a awaited list \<Rightarrow> 'a list awaited" where
  "by_position [] = Resolved []"
| "by_position (Rejected # ps) = Rejected"
| "by_position (Resolved x # ps) =
     (case by_position ps of Rejected \<Rightarrow> Rejected | Resolved xs \<Rightarrow> Resolved (x # xs))"

text \<open>Every promise of a list of \<open>n\<close> settles at some point of \<open>settling\<close>.\<close>

definition all_settle :: "nat list \<Rightarrow> nat \<Rightarrow> bool" where
  "all_settle settling n = list_all (\<lambda>k. k \<in> set settling) [0..<n]"

text \<open>The columns of the row inside a joined record.\<close>

definition row_of :: "Order \<Rightarrow> order_row" where
  "row_of order = order_row.truncate order"

text \<open>Sample data for the concrete instances below.\<close>

definition sample_row :: "string \<Rightarrow> string \<Rightarrow> int \<Rightarrow> int \<Rightarrow> order_row" where
  "sample_row i t fee amount =
     \<lparr>id' = i, order_token = ''T'' @ i, name = ''Ayesha'', phone = ''0300'',
      email = ''a@example.com'', special_instructions = [], payment_proof_url = None,
      payment_method = ''cash'', created_at = t, delivery_fee = fee, total_amount = amount\<rparr>"

definition sample_item :: "string \<Rightarrow> int \<Rightarrow> int \<Rightarrow> OrderItem" where
  "sample_item n p q = \<lparr>product_name = n, price = p, quantity = q\<rparr>"

text \<open>An item query that fails for the order \<open>b\<close> and answers one item for any other.\<close>

definition sample_items_query :: "string \<Rightarrow> OrderItem list response awaited" where
  "sample_items_query oid =
     (if oid = ''b'' then Resolved (Response None (Some TransportError))
      else Resolved (Response (Some [sample_item ''naan'' 50 2]) None))"

text \<open>A reading of timestamps written as decimal digits.\<close>

definition sample_instant :: "string \<Rightarrow> int" where
  "sample_instant s = foldl (\<lambda>n c. 10 * n + (of_char c - 48)) 0 s"

text \<open>A save meets no fault: the store answers the check and applies the write.\<close>

definition reliable :: "save_env \<Rightarrow> bool" where
  "reliable env = (check_fault env = None \<and> write_fault env = None)"

text \<open>The row a first save of the value \<open>v\<close> adds to the table.\<close>

definition saved_row :: "save_env \<Rightarrow> string \<Rightarrow> setting" where
  "saved_row env v =
     \<lparr>setting_id = fresh_id env, key = ''resend_api_key'', value = v,
      description = Some ''API key for Resend email service'', updated_at = store_now env\<rparr>"

text \<open>A submit at the time \<open>t\<close> whose existence check meets the fault \<open>f\<close>, if any.\<close>

definition sample_env :: "fault option \<Rightarrow> string \<Rightarrow> save_env" where
  "sample_env f t = \<lparr>check_fault = f, write_fault = None, client_now = t, fresh_id = ''s1'', store_now = t\<rparr>"


text \<open>An order of two items, 500 twice and 200 once, with a delivery fee of 300.\<close>

definition sample_order :: "int \<Rightarrow> Order" where
  "sample_order amount =
     with_items (sample_row ''a'' ''2'' 300 amount)
       (Some [sample_item ''karahi'' 500 2, sample_item ''naan'' 200 1])"

section \<open>Properties of the numbers\<close>

lemma ulp_below: "m < 2 ^ 53 \<Longrightarrow> ulp m = 1"
  by (subst ulp.simps) simp

text \<open>Every integer up to \<open>2 ^ 53\<close> in magnitude is a binary64 value.\<close>

lemma round_nat_exact: "m \<le> 2 ^ 53 \<Longrightarrow> round_nat m = m"
proof (cases "m < 2 ^ 53")
  case True
  then show ?thesis by (simp add: round_nat_def ulp_below)
next
  case False
  assume "m \<le> 2 ^ 53"
  with False have m: "m = 2 ^ 53" by simp
  have "ulp m = 2" unfolding m by (subst ulp.simps) (simp add: ulp_below)
  then show ?thesis by (simp add: round_nat_def m)
qed

lemma round64_exact: "\<bar>x\<bar> \<le> 2 ^ 53 \<Longrightarrow> round64 x = Num x"
proof -
  assume a: "\<bar>x\<bar> \<le> 2 ^ 53"
  then have n: "nat \<bar>x\<bar> \<le> 2 ^ 53" by (simp add: nat_le_iff)
  then have r: "round_nat (nat \<bar>x\<bar>) = nat \<bar>x\<bar>" by (rule round_nat_exact)
  have "(2::nat) ^ 53 < 2 ^ 1024" by (rule power_strict_increasing) simp_all
  with n have "nat \<bar>x\<bar> < 2 ^ 1024" by (rule le_less_trans)
  then have "\<not> (2::nat) ^ 1024 \<le> nat \<bar>x\<bar>" by (simp only: not_le)
  with r show ?thesis unfolding round64_def Let_def by (simp only: if_False) auto
qed

lemma round64_at:
  assumes "0 \<le> x" and "round_nat (nat x) = v" and "v < 2 ^ 64"
  shows "round64 x = Num (int v)"
proof -
  have "(2::nat) ^ 64 < 2 ^ 1024" by (rule power_strict_increasing) simp_all
  with assms(3) have "v < 2 ^ 1024" by (rule less_trans)
  then have "\<not> (2::nat) ^ 1024 \<le> v" by (simp only: not_le)
  moreover from assms(1) have "\<bar>x\<bar> = x" "\<not> x < 0" by simp_all
  ultimately show ?thesis
    unfolding round64_def Let_def by (simp only: assms(2) if_False)
qed

text \<open>Near \<open>2 ^ 62\<close> the binary64 values are 512 apart.\<close>

lemma round_nat_values:
  "round_nat 4611686014132420609 = 4611686014132420608"
  "round_nat 4611686014132420608 = 4611686014132420608"
  "round_nat 4611686014132420808 = 4611686014132420608"
  "round_nat 4611686014132421008 = 4611686014132421120"
  by (simp_all add: round_nat_def Let_def ulp.simps)

lemma round64_values:
  "round64 4611686014132420609 = Num 4611686014132420608"
  "round64 4611686014132420608 = Num 4611686014132420608"
  "round64 4611686014132420808 = Num 4611686014132420608"
  "round64 4611686014132421008 = Num 4611686014132421120"
  by (simp_all add: round64_at [where v = 4611686014132420608]
      round64_at [where v = 4611686014132421120] round_nat_values)

section \<open>Properties of the subtotal\<close>

text \<open>
  While the magnitudes of the line amounts, together with the one of the sum so far,
  add up to at most \<open>2 ^ 53\<close>, no product and no sum is rounded.
\<close>

lemma foldl_subtotal_exact:
  "\<bar>acc\<bar> + (\<Sum>item\<leftarrow>its. \<bar>price item * quantity item\<bar>) \<le> 2 ^ 53 \<Longrightarrow>
   foldl (\<lambda>sum item. js_add sum (js_mul (price item) (quantity item))) (Num acc) its =
     Num (acc + (\<Sum>item\<leftarrow>its. price item * quantity item))"
proof (induction its arbitrary: acc)
  case Nil
  then show ?case by simp
next
  case (Cons it its)
  let ?p = "price it * quantity it"
  let ?rest = "\<Sum>item\<leftarrow>its. \<bar>price item * quantity item\<bar>"
  have nonneg: "0 \<le> ?rest"
    by (rule sum_list_nonneg) auto
  from Cons.prems have b: "\<bar>acc\<bar> + (\<bar>?p\<bar> + ?rest) \<le> 2 ^ 53" by simp
  from b nonneg have p: "\<bar>?p\<bar> \<le> 2 ^ 53" by linarith
  from b nonneg have s: "\<bar>acc + ?p\<bar> \<le> 2 ^ 53" by linarith
  from b have "\<bar>acc + ?p\<bar> + ?rest \<le> 2 ^ 53" by linarith
  from Cons.IH [OF this] have
    "foldl (\<lambda>sum item. js_add sum (js_mul (price item) (quantity item))) (Num (acc + ?p)) its =
       Num (acc + ?p + (\<Sum>item\<leftarrow>its. price item * quantity item))" .
  moreover have "js_add (Num acc) (js_mul (price it) (quantity it)) = Num (acc + ?p)"
    by (simp only: js_mul_def round64_exact [OF p] js_add.simps round64_exact [OF s])
  ultimately show ?case by (simp only: foldl_Cons list.map sum_list.Cons add.assoc)
qed

lemma calculateSubtotal_sum_list:
  "(\<Sum>item\<leftarrow>its. \<bar>price item * quantity item\<bar>) \<le> 2 ^ 53 \<Longrightarrow>
   calculateSubtotal its = Num (\<Sum>item\<leftarrow>its. price item * quantity item)"
  using foldl_subtotal_exact [of 0 its] by (simp add: calculateSubtotal_def)

text \<open>
  Claim C3. As written the claim fails: the one item of price 2147483647 and quantity
  2147483647 has the amount 4611686014132420609, and the subtotal computed is
  4611686014132420608. What holds: for every list of order items whose line amounts
  add up, in magnitude, to at most \<open>2 ^ 53\<close>, \<open>calculateSubtotal\<close> is the sum over the
  items of price times quantity; and for the empty list it is 0.
\<close>

theorem calculateSubtotal_exact_sum:
  assumes "(\<Sum>item\<leftarrow>its. \<bar>price item * quantity item\<bar>) \<le> 2 ^ 53"
  shows "calculateSubtotal its = Num (\<Sum>item\<leftarrow>its. price item * quantity item)
         \<and> calculateSubtotal [] = Num 0"
  using calculateSubtotal_sum_list [OF assms] by (simp add: calculateSubtotal_def)

theorem calculateSubtotal_exact_sum_witness:
  "calculateSubtotal [sample_item ''karahi'' 500 2, sample_item ''naan'' 200 1] = Num 1200"
  using calculateSubtotal_exact_sum [of "[sample_item ''karahi'' 500 2, sample_item ''naan'' 200 1]"]
  by (simp add: sample_item_def)

theorem calculateSubtotal_sum_counterexample:
  "calculateSubtotal [sample_item ''catering'' 2147483647 2147483647] = Num 4611686014132420608 \<and>
   (\<Sum>item\<leftarrow>[sample_item ''catering'' 2147483647 2147483647]. price item * quantity item) = 4611686014132420609 \<and>
   calculateSubtotal [sample_item ''catering'' 2147483647 2147483647] \<noteq> Num (\<Sum>item\<leftarrow>[sample_item ''catering'' 2147483647 2147483647]. price item * quantity item)"
  by (simp add: calculateSubtotal_def js_mul_def sample_item_def round64_values)

text \<open>
  Claim C9. As written the claim fails: for the items (2147483647, 2147483647), (200, 1),
  (200, 1) the subtotal is 4611686014132420608, and for the reversed list it is
  4611686014132421120. What holds: for every list of order items whose line amounts add
  up, in magnitude, to at most \<open>2 ^ 53\<close>, the subtotal of the reversed list is the
  subtotal of the list.
\<close>

theorem calculateSubtotal_rev_exact:
  assumes "(\<Sum>item\<leftarrow>its. \<bar>price item * quantity item\<bar>) \<le> 2 ^ 53"
  shows "calculateSubtotal (rev its) = calculateSubtotal its"
proof -
  have "(\<Sum>item\<leftarrow>rev its. \<bar>price item * quantity item\<bar>)
          = (\<Sum>item\<leftarrow>its. \<bar>price item * quantity item\<bar>)"
    by (simp add: rev_map [symmetric])
  with assms have "(\<Sum>item\<leftarrow>rev its. \<bar>price item * quantity item\<bar>) \<le> 2 ^ 53"
    by simp
  from calculateSubtotal_sum_list [OF this] calculateSubtotal_sum_list [OF assms]
  show ?thesis by (simp add: rev_map [symmetric])
qed

theorem calculateSubtotal_rev_exact_witness:
  "calculateSubtotal (rev [sample_item ''karahi'' 500 2, sample_item ''naan'' 200 1])
     = calculateSubtotal [sample_item ''karahi'' 500 2, sample_item ''naan'' 200 1]"
  using calculateSubtotal_rev_exact [of "[sample_item ''karahi'' 500 2, sample_item ''naan'' 200 1]"]
  by (simp add: sample_item_def)

theorem calculateSubtotal_rev_counterexample:
  "calculateSubtotal [sample_item ''catering'' 2147483647 2147483647, sample_item ''naan'' 200 1, sample_item ''naan'' 200 1] = Num 4611686014132420608 \<and>
   calculateSubtotal (rev [sample_item ''catering'' 2147483647 2147483647, sample_item ''naan'' 200 1, sample_item ''naan'' 200 1]) = Num 4611686014132421120 \<and>
   calculateSubtotal (rev [sample_item ''catering'' 2147483647 2147483647, sample_item ''naan'' 200 1, sample_item ''naan'' 200 1]) \<noteq> calculateSubtotal [sample_item ''catering'' 2147483647 2147483647, sample_item ''naan'' 200 1, sample_item ''naan'' 200 1]"
  by (simp add: calculateSubtotal_def js_mul_def sample_item_def round64_values round64_exact)

section \<open>Properties of Promise.all\<close>

lemma by_position_Rejected: "Rejected \<in> set ps \<Longrightarrow> by_position ps = Rejected"
  by (induction ps rule: by_position.induct) auto

lemma by_position_filled:
  "length slots = length ps \<Longrightarrow>
   \<forall>k<length ps. \<exists>x. slots ! k = Some x \<and> ps ! k = Resolved x \<Longrightarrow>
   those slots = Some vs \<Longrightarrow> by_position ps = Resolved vs"
proof (induction ps arbitrary: slots vs)
  case Nil
  then show ?case by simp
next
  case (Cons p ps)
  then obtain s rest where slots: "slots = s # rest" by (cases slots) auto
  from Cons.prems(2) slots obtain x where x: "s = Some x" "p = Resolved x" by fastforce
  from Cons.prems(3) slots x obtain vs' where vs': "those rest = Some vs'" "vs = x # vs'"
    by (auto split: option.splits)
  have "\<forall>k<length ps. \<exists>x. rest ! k = Some x \<and> ps ! k = Resolved x"
  proof (intro allI impI)
    fix k assume "k < length ps"
    with Cons.prems(2) [rule_format, of "Suc k"] slots
    show "\<exists>x. rest ! k = Some x \<and> ps ! k = Resolved x"
      by simp
  qed
  with Cons.IH [of rest vs'] Cons.prems(1) slots vs' have "by_position ps = Resolved vs'"
    by simp
  with x vs' show ?case by simp
qed

lemma those_filled:
  "\<forall>k<length slots. slots ! k \<noteq> None \<Longrightarrow> \<exists>vs. those slots = Some vs"
proof (induction slots)
  case Nil
  then show ?case by simp
next
  case (Cons s slots)
  from Cons.prems [rule_format, of 0] obtain x where "s = Some x" by auto
  moreover have "\<forall>k<length slots. slots ! k \<noteq> None"
    using Cons.prems [rule_format, of "Suc k" for k] by simp
  ultimately show ?case using Cons.IH by auto
qed

text \<open>
  The slots hold only values of promises that were fulfilled, and every empty slot
  belongs to a promise that is still to settle: then the result is the one read off by
  position.
\<close>

lemma Promise_all_from_settled:
  assumes "length slots = length ps"
    and "\<forall>k<length ps. \<forall>x. slots ! k = Some x \<longrightarrow> ps ! k = Resolved x"
    and "\<forall>k<length ps. slots ! k = None \<longrightarrow> k \<in> set settling"
  shows "Promise_all_from settling ps slots = Some (by_position ps)"
  using assms
proof (induction settling arbitrary: slots)
  case Nil
  then have full: "\<forall>k<length slots. slots ! k \<noteq> None" by simp
  from those_filled [OF full] obtain vs where vs: "those slots = Some vs" by blast
  have "\<forall>k<length ps. \<exists>x. slots ! k = Some x \<and> ps ! k = Resolved x"
    using Nil full by (metis option.exhaust)
  from by_position_filled [OF Nil.prems(1) this vs] vs show ?case by simp
next
  case (Cons i rest)
  show ?case
  proof (cases "i < length ps")
    case False
    have "\<forall>k<length ps. slots ! k = None \<longrightarrow> k \<in> set rest"
      using Cons.prems(3) False by auto
    from Cons.IH [OF Cons.prems(1,2) this] False show ?thesis by simp
  next
    case True
    show ?thesis
    proof (cases "ps ! i")
      case Rejected
      with True have "Rejected \<in> set ps" by (metis nth_mem)
      with Rejected True show ?thesis by (simp add: by_position_Rejected)
    next
      case (Resolved x)
      have l: "length (slots[i := Some x]) = length ps" using Cons.prems(1) by simp
      have a: "\<forall>k<length ps. \<forall>y. slots[i := Some x] ! k = Some y \<longrightarrow> ps ! k = Resolved y"
      proof (intro allI impI)
        fix k y assume k: "k < length ps" and y: "slots[i := Some x] ! k = Some y"
        show "ps ! k = Resolved y"
        proof (cases "k = i")
          case True
          with y k Cons.prems(1) Resolved show ?thesis by simp
        next
          case False
          with y have "slots ! k = Some y" by simp
          with Cons.prems(2) k show ?thesis by blast
        qed
      qed
      have b: "\<forall>k<length ps. slots[i := Some x] ! k = None \<longrightarrow> k \<in> set rest"
      proof (intro allI impI)
        fix k assume k: "k < length ps" and n: "slots[i := Some x] ! k = None"
        from n k Cons.prems(1) have ki: "k \<noteq> i" by auto
        with n have "slots ! k = None" by simp
        with Cons.prems(3) k have "k \<in> set (i # rest)" by blast
        with ki show "k \<in> set rest" by simp
      qed
      from Cons.IH [OF l a b] True Resolved show ?thesis by simp
    qed
  qed
qed

lemma Promise_all_settled:
  assumes "all_settle settling (length ps)"
  shows "Promise_all settling ps = Some (by_position ps)"
proof -
  from assms have "\<forall>k<length ps. k \<in> set settling"
    by (simp add: all_settle_def list_all_iff)
  then show ?thesis
    unfolding Promise_all_def by (intro Promise_all_from_settled) simp_all
qed

section \<open>Properties of fetchOrders\<close>

lemma row_of_with_items: "row_of (with_items order d) = order"
  by (simp add: row_of_def with_items_def order_row.truncate_def order_row.extend_def)

lemma items_with_items:
  "items (with_items order d) = (case d of Some its \<Rightarrow> its | None \<Rightarrow> [])"
  by (simp add: with_items_def order_row.extend_def Order.fields_def)

lemma id_with_items: "id' (with_items order d) = id' order"
  by (simp add: with_items_def order_row.extend_def)

lemma created_at_with_items: "created_at (with_items order d) = created_at order"
  by (simp add: with_items_def order_row.extend_def)

text \<open>When no callback is rejected, the joined records come by position.\<close>

lemma by_position_join:
  "\<forall>order\<in>set rows. q (id' order) \<noteq> Rejected \<Longrightarrow>
   by_position (map (join_items q) rows) =
     Resolved (map (\<lambda>order. with_items order
                      (case q (id' order) of Resolved r \<Rightarrow> data r | Rejected \<Rightarrow> None)) rows)"
  by (induction rows) (auto simp: join_items_def split: awaited.splits)

lemma fetchOrders_joined:
  assumes "\<forall>order\<in>set rows. q (id' order) \<noteq> Rejected"
    and "all_settle settling (length rows)"
  shows "fetchOrders settling (Resolved (Response (Some rows) None)) q st =
     Some \<lparr>final = st\<lparr>loading := False, error := None,
          orders := map (\<lambda>order. with_items order
                           (case q (id' order) of Resolved r \<Rightarrow> data r | Rejected \<Rightarrow> None)) rows\<rparr>,
      issued = orders_query # map (\<lambda>order. SelectOrderItems (id' order)) rows,
      console = []\<rparr>"
proof -
  from assms(2) have "all_settle settling (length (map (join_items q) rows))" by simp
  from Promise_all_settled [OF this] by_position_join [OF assms(1)]
  show ?thesis by (simp add: fetchOrders_def)
qed

text \<open>
  Claim C1. The top-level query answers the rows \<open>rows\<close>; the item query of the order
  \<open>bad\<close> resolves to an error with no data, the item query of every other order
  answers its items, and the item queries settle in any order. Then the fetch ends with
  no error, the orders of the state are the rows of the top-level query, all of them and
  in its order, every order with the id of \<open>bad\<close> has the empty item list, and every
  order whose query answered has the items it answered.
\<close>

theorem fetchOrders_item_failure_isolated:
  assumes top: "orders_result = Resolved (Response (Some rows) None)"
    and bad: "items_query (id' bad) = Resolved (Response None (Some e))"
    and rest: "\<forall>order\<in>set rows. id' order \<noteq> id' bad \<longrightarrow>
                 (\<exists>its. items_query (id' order) = Resolved (Response (Some its) None))"
    and settle: "all_settle settling (length rows)"
  shows "\<exists>r. fetchOrders settling orders_result items_query st = Some r \<and>
         error (final r) = None \<and> \<not> loading (final r) \<and>
         map row_of (orders (final r)) = rows \<and>
         (\<forall>order\<in>set (orders (final r)). id' order = id' bad \<longrightarrow> items order = []) \<and>
         (\<forall>order\<in>set (orders (final r)). \<forall>its.
             items_query (id' order) = Resolved (Response (Some its) None) \<longrightarrow> items order = its)"
proof -
  let ?join = "\<lambda>order. with_items order
                 (case items_query (id' order) of Resolved r \<Rightarrow> data r | Rejected \<Rightarrow> None)"
  let ?r = "\<lparr>final = st\<lparr>loading := False, error := None, orders := map ?join rows\<rparr>,
             issued = orders_query # map (\<lambda>order. SelectOrderItems (id' order)) rows,
             console = []\<rparr>"
  have no_rej: "\<forall>order\<in>set rows. items_query (id' order) \<noteq> Rejected"
  proof
    fix order assume "order \<in> set rows"
    with rest bad show "items_query (id' order) \<noteq> Rejected"
      by (cases "id' order = id' bad") auto
  qed
  have run: "fetchOrders settling orders_result items_query st = Some ?r"
    by (simp add: top fetchOrders_joined [OF no_rej settle])
  have rows: "map row_of (orders (final ?r)) = rows"
    by (simp add: o_def row_of_with_items)
  have empty: "\<forall>order\<in>set (orders (final ?r)). id' order = id' bad \<longrightarrow> items order = []"
    using bad by (auto simp: id_with_items items_with_items)
  have other: "\<forall>order\<in>set (orders (final ?r)). \<forall>its.
             items_query (id' order) = Resolved (Response (Some its) None) \<longrightarrow> items order = its"
    by (auto simp: id_with_items items_with_items)
  have "error (final ?r) = None \<and> \<not> loading (final ?r)" by simp
  with run rows empty other show ?thesis by blast
qed

theorem fetchOrders_item_failure_isolated_witness:
  "\<exists>r. fetchOrders [1, 0] (Resolved (Response (Some [sample_row ''a'' ''2'' 0 100, sample_row ''b'' ''1'' 0 70]) None))
          sample_items_query initial_state = Some r \<and>
       error (final r) = None \<and>
       map row_of (orders (final r)) = [sample_row ''a'' ''2'' 0 100, sample_row ''b'' ''1'' 0 70] \<and>
       map items (orders (final r)) = [[sample_item ''naan'' 50 2], []]"
proof -
  have bad: "sample_items_query (id' (sample_row ''b'' ''1'' 0 70))
               = Resolved (Response None (Some TransportError))"
    by (simp add: sample_items_query_def sample_row_def)
  have rest: "\<forall>order\<in>set [sample_row ''a'' ''2'' 0 100, sample_row ''b'' ''1'' 0 70].
      id' order \<noteq> id' (sample_row ''b'' ''1'' 0 70) \<longrightarrow>
      (\<exists>its. sample_items_query (id' order) = Resolved (Response (Some its) None))"
    by (simp add: sample_items_query_def sample_row_def)
  have settle: "all_settle [1, 0] (length [sample_row ''a'' ''2'' 0 100, sample_row ''b'' ''1'' 0 70])"
    by (simp add: all_settle_def)
  from fetchOrders_item_failure_isolated [OF refl bad rest settle, of initial_state]
  obtain r where all: "fetchOrders [1, 0] (Resolved (Response (Some [sample_row ''a'' ''2'' 0 100, sample_row ''b'' ''1'' 0 70]) None))
          sample_items_query initial_state = Some r \<and>
       error (final r) = None \<and> \<not> loading (final r) \<and>
       map row_of (orders (final r)) = [sample_row ''a'' ''2'' 0 100, sample_row ''b'' ''1'' 0 70] \<and>
       (\<forall>order\<in>set (orders (final r)).
              id' order = id' (sample_row ''b'' ''1'' 0 70) \<longrightarrow> items order = []) \<and>
       (\<forall>order\<in>set (orders (final r)). \<forall>its.
              sample_items_query (id' order) = Resolved (Response (Some its) None)
              \<longrightarrow> items order = its)" ..
  then have r: "fetchOrders [1, 0] (Resolved (Response (Some [sample_row ''a'' ''2'' 0 100, sample_row ''b'' ''1'' 0 70]) None))
          sample_items_query initial_state = Some r"
    and e: "error (final r) = None" and rows: "map row_of (orders (final r)) = [sample_row ''a'' ''2'' 0 100, sample_row ''b'' ''1'' 0 70]"
    and b: "\<forall>order\<in>set (orders (final r)).
              id' order = id' (sample_row ''b'' ''1'' 0 70) \<longrightarrow> items order = []"
    and o: "\<forall>order\<in>set (orders (final r)). \<forall>its.
              sample_items_query (id' order) = Resolved (Response (Some its) None)
              \<longrightarrow> items order = its"
    by simp_all
  from rows obtain oa ob where os: "orders (final r) = [oa, ob]"
    and "row_of oa = sample_row ''a'' ''2'' 0 100" and "row_of ob = sample_row ''b'' ''1'' 0 70"
    by auto
  then have ids: "id' oa = ''a''" "id' ob = ''b''"
    by (auto simp: row_of_def order_row.truncate_def sample_row_def
        dest!: arg_cong [where f = id'])
  from b os ids have "items ob = []" by (simp add: sample_row_def)
  moreover from o os ids have "items oa = [sample_item ''naan'' 50 2]"
    by (simp add: sample_items_query_def)
  ultimately have "map items (orders (final r)) = [[sample_item ''naan'' 50 2], []]"
    using os by simp
  with r e rows show ?thesis by (intro exI [of _ r]) simp
qed

text \<open>
  Claim C5. When the top-level query fails (its response carries an error, or the await
  is rejected), the fetch ends in the error state with the message of that path, only
  the orders query has been issued (no item query), the orders of the state are the ones
  it had before the fetch (none after mounting), and the component renders the error
  box and no order.
\<close>

theorem fetchOrders_orders_unavailable:
  assumes "failed orders_result"
    and "msg = (case orders_result of
                  Rejected \<Rightarrow> ''Something went wrong while fetching orders''
                | Resolved _ \<Rightarrow> ''Failed to fetch orders'')"
  shows "\<exists>r. fetchOrders settling orders_result items_query st = Some r \<and>
         error (final r) = Some msg \<and> \<not> loading (final r) \<and>
         issued r = [orders_query] \<and>
         orders (final r) = orders st \<and>
         render (final r) = ErrorBox msg"
proof (cases orders_result)
  case Rejected
  with assms show ?thesis
    by (simp add: fetchOrders_def render_def)
next
  case (Resolved resp)
  with assms obtain d e where resp: "resp = Response d (Some e)"
    by (cases resp) (auto simp: failed_def)
  with Resolved assms show ?thesis
    by (simp add: fetchOrders_def render_def)
qed

theorem fetchOrders_orders_unavailable_witness:
  "\<exists>r. fetchOrders [] (Resolved (Response None (Some TransportError)))
          sample_items_query initial_state = Some r \<and>
       error (final r) = Some ''Failed to fetch orders'' \<and>
       issued r = [orders_query] \<and>
       orders (final r) = [] \<and>
       render (final r) = ErrorBox ''Failed to fetch orders''"
proof -
  have fl: "failed (Resolved (Response (None :: order_row list option) (Some TransportError)))"
    by (simp add: failed_def)
  from fetchOrders_orders_unavailable
    [OF fl, of "''Failed to fetch orders''" "[]" sample_items_query initial_state]
  obtain r where all: "fetchOrders [] (Resolved (Response None (Some TransportError)))
          sample_items_query initial_state = Some r \<and>
       error (final r) = Some ''Failed to fetch orders'' \<and> \<not> loading (final r) \<and>
       issued r = [orders_query] \<and>
       orders (final r) = orders initial_state \<and>
       render (final r) = ErrorBox ''Failed to fetch orders''"
    by auto
  moreover have "orders initial_state = []" by (simp add: initial_state_def)
  ultimately show ?thesis by (intro exI [of _ r]) simp
qed

text \<open>
  Claim C2. The component asks for the orders by \<open>created_at\<close> with \<open>ascending\<close> false.
  When the store answers that query over its table and every item query settles without
  being rejected, in whatever order, the rows of the joined orders are exactly the
  answer of the store, position by position, and an order created later than another
  one stands before it.
\<close>

theorem fetchOrders_newest_first:
  assumes store: "orders_result = Resolved (select_orders instant False tbl)"
    and no_rej: "\<forall>order\<in>set tbl. items_query (id' order) \<noteq> Rejected"
    and settle: "all_settle settling (length tbl)"
  shows "\<exists>r. fetchOrders settling orders_result items_query st = Some r \<and>
         issued r ! 0 = SelectOrders ''created_at'' False \<and>
         Some (map row_of (orders (final r))) = data (select_orders instant False tbl) \<and>
         (\<forall>i j. i < length (orders (final r)) \<and> j < length (orders (final r)) \<and>
                instant (created_at (orders (final r) ! j))
                  < instant (created_at (orders (final r) ! i))
                \<longrightarrow> i < j)"
proof -
  let ?rows = "sort_key (\<lambda>r. - instant (created_at r)) tbl"
  let ?join = "\<lambda>order. with_items order
                 (case items_query (id' order) of Resolved r \<Rightarrow> data r | Rejected \<Rightarrow> None)"
  let ?r = "\<lparr>final = st\<lparr>loading := False, error := None, orders := map ?join ?rows\<rparr>,
      issued = orders_query # map (\<lambda>order. SelectOrderItems (id' order)) ?rows,
      console = []\<rparr>"
  have nr: "\<forall>order\<in>set ?rows. items_query (id' order) \<noteq> Rejected"
    using no_rej by simp
  have st: "all_settle settling (length ?rows)"
    using settle by simp
  have run: "fetchOrders settling orders_result items_query st = Some ?r"
    using fetchOrders_joined [OF nr st] by (simp add: store select_orders_def)
  have rows: "map row_of (orders (final ?r)) = ?rows"
    by (simp add: o_def row_of_with_items)
  have q: "issued ?r ! 0 = SelectOrders ''created_at'' False"
    by (simp add: orders_query_def)
  have srt: "sorted (map (\<lambda>r. - instant (created_at r)) ?rows)"
    by (rule sorted_sort_key)
  have ord: "i < j"
    if i: "i < length (orders (final ?r))" and j: "j < length (orders (final ?r))"
      and lt: "instant (created_at (orders (final ?r) ! j))
                 < instant (created_at (orders (final ?r) ! i))"
    for i j
  proof (rule ccontr)
    assume "\<not> i < j"
    then have ji: "j \<le> i" by simp
    have len: "length (orders (final ?r)) = length ?rows" by simp
    have "map (\<lambda>r. - instant (created_at r)) ?rows ! j
            \<le> map (\<lambda>r. - instant (created_at r)) ?rows ! i"
      using srt ji i len by (simp add: sorted_iff_nth_mono del: sorted_sort_key length_sort)
    then have "instant (created_at (?rows ! i)) \<le> instant (created_at (?rows ! j))"
      using i j len by simp
    moreover have "created_at (orders (final ?r) ! i) = created_at (?rows ! i)"
      "created_at (orders (final ?r) ! j) = created_at (?rows ! j)"
      using i j len by (simp_all add: created_at_with_items)
    ultimately show False using lt by simp
  qed
  have "Some (map row_of (orders (final ?r))) = data (select_orders instant False tbl)"
    using rows by (simp add: select_orders_def)
  with run q ord show ?thesis by blast
qed

theorem fetchOrders_newest_first_witness:
  "\<exists>r. fetchOrders [1, 0]
          (Resolved (select_orders sample_instant False
                       [sample_row ''b'' ''1'' 0 70, sample_row ''a'' ''2'' 0 100]))
          sample_items_query initial_state = Some r \<and>
       map row_of (orders (final r)) = [sample_row ''a'' ''2'' 0 100, sample_row ''b'' ''1'' 0 70]"
proof -
  have no_rej: "\<forall>order\<in>set [sample_row ''b'' ''1'' 0 70, sample_row ''a'' ''2'' 0 100].
                  sample_items_query (id' order) \<noteq> Rejected"
    by (simp add: sample_items_query_def)
  have settle: "all_settle [1, 0] (length [sample_row ''b'' ''1'' 0 70, sample_row ''a'' ''2'' 0 100])"
    by (simp add: all_settle_def)
  from fetchOrders_newest_first [OF refl no_rej settle, of sample_instant initial_state]
  show ?thesis
    by (auto simp: select_orders_def sample_instant_def sample_row_def)
qed

section \<open>Properties of the expand state and of the display\<close>

lemma fetchOrders_expandedOrderId:
  "fetchOrders settling orders_result items_query st = Some r \<Longrightarrow>
   expandedOrderId (final r) = expandedOrderId st"
  by (auto simp: fetchOrders_def Let_def split: awaited.splits response.splits option.splits)

lemma at_most_one_with_id:
  "distinct (map f xs) \<Longrightarrow> length (filter (\<lambda>x. v = f x) xs) \<le> Suc 0"
proof (induction xs)
  case Nil
  show ?case by simp
next
  case (Cons a xs)
  show ?case
  proof (cases "v = f a")
    case True
    from Cons.prems have "f a \<notin> f ` set xs" by simp
    then have "\<forall>x\<in>set xs. v \<noteq> f x" using True by (metis imageI)
    then have "filter (\<lambda>x. v = f x) xs = []"
      by (simp add: filter_empty_conv)
    with True show ?thesis by simp
  next
    case False
    with Cons show ?thesis by simp
  qed
qed

lemma expanded_rows:
  "filter chevron_up (map (render_order st) os) =
     map (render_order st) (filter (\<lambda>order. is_expanded st (id' order)) os)"
  by (induction os) (simp_all add: render_order_def)

text \<open>
  Claim C6. After mounting and fetching, no order is expanded. In every state reached
  from there by clicks on rows, at most one order id is expanded, and at most one
  rendered row when the ids of the orders are distinct. Clicking \<open>x\<close> and then another
  order \<open>y\<close> leaves exactly \<open>y\<close> expanded; clicking the expanded order leaves none
  expanded; a click on \<open>x\<close> always flips \<open>x\<close> and changes the state, so no state is
  terminal, and two more clicks on \<open>x\<close> lead back to the state after the first.
\<close>

theorem expand_collapse_single_selector:
  assumes start: "fetchOrders settling orders_result items_query initial_state = Some r0"
    and reach: "st = fold toggle clicks (final r0)"
    and xy: "x \<noteq> y"
  shows "(\<forall>oid. \<not> is_expanded initial_state oid \<and> \<not> is_expanded (final r0) oid) \<and>
         (\<forall>a b. is_expanded st a \<and> is_expanded st b \<longrightarrow> a = b) \<and>
         (distinct (map id' (orders st)) \<longrightarrow>
            length (filter chevron_up (map (render_order st) (orders st))) \<le> 1) \<and>
         (\<forall>z. is_expanded (toggle y (toggle x st)) z \<longleftrightarrow> z = y) \<and>
         (is_expanded st x \<longrightarrow> (\<forall>z. \<not> is_expanded (toggle x st) z)) \<and>
         (is_expanded (toggle x st) x \<longleftrightarrow> \<not> is_expanded st x) \<and>
         toggle x st \<noteq> st \<and>
         toggle x (toggle x (toggle x st)) = toggle x st"
proof -
  have c1: "\<forall>oid. \<not> is_expanded initial_state oid \<and> \<not> is_expanded (final r0) oid"
    using fetchOrders_expandedOrderId [OF start]
    by (simp add: is_expanded_def initial_state_def)
  have c2: "\<forall>a b. is_expanded st a \<and> is_expanded st b \<longrightarrow> a = b"
    by (auto simp: is_expanded_def)
  have c3: "distinct (map id' (orders st)) \<longrightarrow>
            length (filter chevron_up (map (render_order st) (orders st))) \<le> 1"
  proof
    assume d: "distinct (map id' (orders st))"
    show "length (filter chevron_up (map (render_order st) (orders st))) \<le> 1"
    proof (cases "expandedOrderId st")
      case None
      then show ?thesis by (simp add: expanded_rows is_expanded_def)
    next
      case (Some oid)
      with at_most_one_with_id [OF d, of oid] show ?thesis
        by (simp add: expanded_rows is_expanded_def)
    qed
  qed
  have c4: "\<forall>z. is_expanded (toggle y (toggle x st)) z \<longleftrightarrow> z = y"
    using xy by (auto simp: is_expanded_def toggle_def)
  have c5: "is_expanded st x \<longrightarrow> (\<forall>z. \<not> is_expanded (toggle x st) z)"
    by (simp add: is_expanded_def toggle_def)
  have c6: "is_expanded (toggle x st) x \<longleftrightarrow> \<not> is_expanded st x"
    by (simp add: is_expanded_def toggle_def)
  have c7: "toggle x st \<noteq> st"
  proof
    assume "toggle x st = st"
    then have "expandedOrderId (toggle x st) = expandedOrderId st" by simp
    then show False by (simp add: toggle_def split: if_splits)
  qed
  have c8: "toggle x (toggle x (toggle x st)) = toggle x st"
    by (simp add: toggle_def)
  from c1 c2 c3 c4 c5 c6 c7 c8 show ?thesis by blast
qed

theorem expand_collapse_single_selector_witness:
  "\<exists>r0. fetchOrders [0, 1] (Resolved (Response (Some [sample_row ''a'' ''2'' 0 100, sample_row ''b'' ''1'' 0 70]) None))
           sample_items_query initial_state = Some r0 \<and>
        is_expanded (toggle ''b'' (toggle ''a'' (fold toggle [''a'', ''a'', ''b''] (final r0)))) ''b'' \<and>
        \<not> is_expanded (toggle ''b'' (toggle ''a'' (fold toggle [''a'', ''a'', ''b''] (final r0)))) ''a''"
proof -
  have no_rej: "\<forall>order\<in>set [sample_row ''a'' ''2'' 0 100, sample_row ''b'' ''1'' 0 70]. sample_items_query (id' order) \<noteq> Rejected"
    by (simp add: sample_items_query_def)
  have settle: "all_settle [0, 1] (length [sample_row ''a'' ''2'' 0 100, sample_row ''b'' ''1'' 0 70])"
    by (simp add: all_settle_def)
  from fetchOrders_joined [OF no_rej settle, of initial_state]
  obtain r0 where r0: "fetchOrders [0, 1] (Resolved (Response (Some [sample_row ''a'' ''2'' 0 100, sample_row ''b'' ''1'' 0 70]) None))
           sample_items_query initial_state = Some r0"
    by blast
  have ab: "''a'' \<noteq> ''b''" by simp
  from expand_collapse_single_selector [OF r0 refl ab, of "[''a'', ''a'', ''b'']"]
  have "\<forall>z. is_expanded (toggle ''b'' (toggle ''a'' (fold toggle [''a'', ''a'', ''b''] (final r0)))) z
          \<longleftrightarrow> z = ''b''"
    by blast
  then have "is_expanded (toggle ''b'' (toggle ''a'' (fold toggle [''a'', ''a'', ''b''] (final r0)))) ''b''"
    and "\<not> is_expanded (toggle ''b'' (toggle ''a'' (fold toggle [''a'', ''a'', ''b''] (final r0)))) ''a''"
    by simp_all
  with r0 show ?thesis by (intro exI [of _ r0]) simp
qed

text \<open>
  Claim C7. The total a row displays, in its header and in its details, is the stored
  \<open>total_amount\<close>, whatever the items and the delivery fee are; the subtotal beside it
  is recomputed from the items. For the items (500, 2) and (200, 1) with a delivery fee
  of 300 the subtotal shown is 1200 and the total shown is the stored one.
\<close>

theorem displayed_total_is_stored:
  "header_total (render_order st order) = total_amount order \<and>
   (is_expanded st (id' order) \<longrightarrow> details (render_order st order) = Some (render_details order)) \<and>
   shown_subtotal (render_details order) = calculateSubtotal (items order) \<and>
   shown_total (render_details order) = total_amount order \<and>
   (\<forall>its fee. shown_total (render_details (order\<lparr>items := its, delivery_fee := fee\<rparr>))
                = total_amount order) \<and>
   (\<forall>vs. render st = OrderRows vs \<longrightarrow> map header_total vs = map total_amount (orders st)) \<and>
   (items order = [\<lparr>product_name = n1, price = 500, quantity = 2\<rparr>,
                   \<lparr>product_name = n2, price = 200, quantity = 1\<rparr>] \<and> delivery_fee order = 300
      \<longrightarrow> shown_subtotal (render_details order) = Num 1200 \<and>
          shown_delivery_fee (render_details order) = Some 300 \<and>
          shown_total (render_details order) = total_amount order)"
  by (auto simp: render_order_def render_details_def render_def calculateSubtotal_def o_def
      js_mul_def round64_exact split: if_splits option.splits)

theorem displayed_total_is_stored_witness:
  "shown_subtotal (render_details (sample_order 9999)) = Num 1200 \<and>
   shown_delivery_fee (render_details (sample_order 9999)) = Some 300 \<and>
   shown_total (render_details (sample_order 9999)) = 9999 \<and>
   header_total (render_order initial_state (sample_order 9999)) = 9999"
proof -
  let ?o = "sample_order 9999"
  have given: "items ?o = [\<lparr>product_name = ''karahi'', price = 500, quantity = 2\<rparr>,
                          \<lparr>product_name = ''naan'', price = 200, quantity = 1\<rparr>]
               \<and> delivery_fee ?o = 300"
    by (simp add: sample_order_def sample_item_def sample_row_def with_items_def
        order_row.extend_def Order.fields_def)
  have stored: "total_amount ?o = 9999"
    by (simp add: sample_order_def sample_row_def with_items_def order_row.extend_def)
  note all = displayed_total_is_stored
    [where order = ?o and st = initial_state and ?n1.0 = "''karahi''" and ?n2.0 = "''naan''"]
  from all have header: "header_total (render_order initial_state ?o) = total_amount ?o"
    by (rule conjunct1)
  from all have "items ?o = [\<lparr>product_name = ''karahi'', price = 500, quantity = 2\<rparr>,
                            \<lparr>product_name = ''naan'', price = 200, quantity = 1\<rparr>]
                 \<and> delivery_fee ?o = 300
      \<longrightarrow> shown_subtotal (render_details ?o) = Num 1200 \<and>
          shown_delivery_fee (render_details ?o) = Some 300 \<and>
          shown_total (render_details ?o) = total_amount ?o"
    by (elim conjE)
  from this [rule_format, OF given] header stored show ?thesis by simp
qed

section \<open>Properties of the settings\<close>

lemma with_key_update:
  "with_key k (map (\<lambda>s. if key s = k then s\<lparr>value := v, updated_at := ts\<rparr> else s) tbl) =
     map (\<lambda>s. s\<lparr>value := v, updated_at := ts\<rparr>) (with_key k tbl)"
  by (induction tbl) (simp_all add: with_key_def)

lemma with_key_append: "with_key k (tbl @ [s]) = with_key k tbl @ (if key s = k then [s] else [])"
  by (simp add: with_key_def)

lemma handleSave_update:
  assumes "reliable env" and "with_key ''resend_api_key'' tbl = [s]"
  shows "handleSave env st tbl =
     (\<lparr>final = st\<lparr>saving := False,
                   message := Some (Message Success ''Resend API key saved successfully!'')\<rparr>,
       issued = [SelectSettingId ''resend_api_key'',
                 UpdateSetting ''resend_api_key'' (resendApiKey st) (client_now env)],
       console = []\<rparr>,
      map (\<lambda>s. if key s = ''resend_api_key''
                then s\<lparr>value := resendApiKey st, updated_at := client_now env\<rparr> else s) tbl)"
  using assms
  by (simp add: handleSave_def Let_def reliable_def reading_def writing_def select_id_def maybeSingle_def
      update_setting_def)

lemma handleSave_insert:
  assumes "reliable env" and "with_key ''resend_api_key'' tbl = []"
  shows "handleSave env st tbl =
     (\<lparr>final = st\<lparr>saving := False,
                   message := Some (Message Success ''Resend API key saved successfully!'')\<rparr>,
       issued = [SelectSettingId ''resend_api_key'',
                 InsertSetting ''resend_api_key'' (resendApiKey st) ''API key for Resend email service''],
       console = []\<rparr>,
      tbl @ [saved_row env (resendApiKey st)])"
  using assms
  by (simp add: handleSave_def Let_def reliable_def reading_def writing_def select_id_def maybeSingle_def
      insert_setting_def saved_row_def)

lemma handleSave_one_row:
  assumes "reliable env" and "length (with_key ''resend_api_key'' tbl) \<le> 1"
  shows "\<exists>s. with_key ''resend_api_key'' (snd (handleSave env st tbl)) = [s] \<and>
             value s = resendApiKey st"
proof (cases "with_key ''resend_api_key'' tbl")
  case Nil
  with assms show ?thesis
    by (simp add: handleSave_insert with_key_append saved_row_def)
next
  case (Cons s rest)
  with assms have one: "with_key ''resend_api_key'' tbl = [s]" by simp
  with assms show ?thesis
    by (simp add: handleSave_update with_key_update)
qed

lemma save_all_last:
  assumes "steps \<noteq> []" and "\<forall>step\<in>set steps. reliable (snd step)"
    and "length (with_key ''resend_api_key'' tbl) \<le> 1"
  shows "\<exists>s. with_key ''resend_api_key'' (snd (save_all steps st tbl)) = [s] \<and>
             value s = fst (last steps)"
  using assms
proof (induction steps arbitrary: st tbl)
  case Nil
  then show ?case by simp
next
  case (Cons step rest)
  obtain v env where step: "step = (v, env)" by (cases step)
  obtain r tbl' where hs: "handleSave env (st\<lparr>resendApiKey := v\<rparr>) tbl = (r, tbl')"
    by (cases "handleSave env (st\<lparr>resendApiKey := v\<rparr>) tbl")
  from Cons.prems step have rel: "reliable env" by simp
  from handleSave_one_row [OF rel Cons.prems(3), of "st\<lparr>resendApiKey := v\<rparr>"] hs
  obtain s where s: "with_key ''resend_api_key'' tbl' = [s]" "value s = v" by auto
  show ?case
  proof (cases "rest = []")
    case True
    with s step hs show ?thesis by simp
  next
    case False
    from s have len: "length (with_key ''resend_api_key'' tbl') \<le> 1" by simp
    from Cons.prems have "\<forall>step\<in>set rest. reliable (snd step)" by simp
    from Cons.IH [OF False this len, of "final r"] False step hs show ?thesis by simp
  qed
qed

text \<open>
  Claim C4. A save that meets no fault, on a table with at most one row for the key:
  when the row exists, the save issues the update and the row keeps its place with the
  new value and the client's timestamp; when no row exists, the save issues the insert
  and the table gains the row with the key, the value and the static description; the
  success message is set. After any non-empty sequence of such saves there is exactly one
  row with the key, and its value is the one saved last.
\<close>

theorem handleSave_upsert:
  assumes rel: "reliable env"
    and uniq: "length (with_key ''resend_api_key'' tbl) \<le> 1"
    and steps: "steps \<noteq> []" "\<forall>step\<in>set steps. reliable (snd step)"
  shows "(\<forall>s. with_key ''resend_api_key'' tbl = [s] \<longrightarrow>
            issued (fst (handleSave env st tbl)) =
              [SelectSettingId ''resend_api_key'',
               UpdateSetting ''resend_api_key'' (resendApiKey st) (client_now env)] \<and>
            with_key ''resend_api_key'' (snd (handleSave env st tbl)) =
              [s\<lparr>value := resendApiKey st, updated_at := client_now env\<rparr>]) \<and>
         (with_key ''resend_api_key'' tbl = [] \<longrightarrow>
            issued (fst (handleSave env st tbl)) =
              [SelectSettingId ''resend_api_key'',
               InsertSetting ''resend_api_key'' (resendApiKey st) ''API key for Resend email service''] \<and>
            snd (handleSave env st tbl) = tbl @ [saved_row env (resendApiKey st)]) \<and>
         message (final (fst (handleSave env st tbl))) =
            Some (Message Success ''Resend API key saved successfully!'') \<and>
         (\<exists>s. with_key ''resend_api_key'' (snd (save_all steps st tbl)) = [s] \<and>
              value s = fst (last steps))"
proof -
  have upd: "\<forall>s. with_key ''resend_api_key'' tbl = [s] \<longrightarrow>
            issued (fst (handleSave env st tbl)) =
              [SelectSettingId ''resend_api_key'',
               UpdateSetting ''resend_api_key'' (resendApiKey st) (client_now env)] \<and>
            with_key ''resend_api_key'' (snd (handleSave env st tbl)) =
              [s\<lparr>value := resendApiKey st, updated_at := client_now env\<rparr>]"
    by (simp add: handleSave_update [OF rel] with_key_update)
  have ins: "with_key ''resend_api_key'' tbl = [] \<longrightarrow>
            issued (fst (handleSave env st tbl)) =
              [SelectSettingId ''resend_api_key'',
               InsertSetting ''resend_api_key'' (resendApiKey st) ''API key for Resend email service''] \<and>
            snd (handleSave env st tbl) = tbl @ [saved_row env (resendApiKey st)]"
    by (simp add: handleSave_insert [OF rel])
  have msg: "message (final (fst (handleSave env st tbl))) =
            Some (Message Success ''Resend API key saved successfully!'')"
  proof (cases "with_key ''resend_api_key'' tbl")
    case Nil
    then show ?thesis by (simp add: handleSave_insert [OF rel])
  next
    case (Cons s rest)
    with uniq have "with_key ''resend_api_key'' tbl = [s]" by simp
    then show ?thesis by (simp add: handleSave_update [OF rel])
  qed
  from upd ins msg save_all_last [OF steps uniq] show ?thesis by blast
qed

theorem handleSave_upsert_witness:
  "reliable (sample_env None ''t0'') \<and>
   snd (handleSave (sample_env None ''t0'') (initial_admin\<lparr>resendApiKey := ''re_0''\<rparr>) []) =
     [saved_row (sample_env None ''t0'') ''re_0''] \<and>
   map value (with_key ''resend_api_key''
     (snd (save_all [(''re_1'', sample_env None ''t1''), (''re_2'', sample_env None ''t2'')]
             initial_admin []))) = [''re_2'']"
  using handleSave_upsert
    [where env = "sample_env None ''t0''" and tbl = "[]"
      and st = "initial_admin\<lparr>resendApiKey := ''re_0''\<rparr>"
      and steps = "[(''re_1'', sample_env None ''t1''), (''re_2'', sample_env None ''t2'')]"]
  by (auto simp: reliable_def sample_env_def with_key_def)

text \<open>
  Claim C10. When the existence check returns an error although a row with the key
  exists, the save issues the insert and not the update; the table stays as it was and
  the state carries the one failure message. When the insert reaches the store, the
  error that is caught is the unique-key violation.
\<close>

theorem handleSave_check_error_inserts:
  assumes present: "with_key ''resend_api_key'' tbl \<noteq> []"
    and chk: "check_fault env = Some (ReturnsError e)"
    and r: "r = handleSave env st tbl"
  shows "issued (fst r) =
           [SelectSettingId ''resend_api_key'',
            InsertSetting ''resend_api_key'' (resendApiKey st) ''API key for Resend email service''] \<and>
         snd r = tbl \<and>
         message (final (fst r)) =
           Some (Message Error ''Failed to save settings. Please try again.'') \<and>
         (write_fault env = None \<longrightarrow> console (fst r) = [(''Error:'', Thrown UniqueViolation)])"
proof (cases "write_fault env")
  case None
  with assms show ?thesis
    by (simp add: handleSave_def Let_def reading_def writing_def insert_setting_def)
next
  case (Some f)
  with assms show ?thesis
    by (cases f) (simp_all add: handleSave_def Let_def reading_def writing_def)
qed

theorem handleSave_check_error_inserts_witness:
  "handleSave (sample_env (Some (ReturnsError TransportError)) ''t1'')
     (initial_admin\<lparr>resendApiKey := ''re_new''\<rparr>) [saved_row (sample_env None ''t0'') ''re_old''] =
   (\<lparr>final = initial_admin\<lparr>resendApiKey := ''re_new'',
        message := Some (Message Error ''Failed to save settings. Please try again.'')\<rparr>,
     issued = [SelectSettingId ''resend_api_key'',
               InsertSetting ''resend_api_key'' ''re_new'' ''API key for Resend email service''],
     console = [(''Error:'', Thrown UniqueViolation)]\<rparr>,
    [saved_row (sample_env None ''t0'') ''re_old''])"
  using handleSave_check_error_inserts
    [where env = "sample_env (Some (ReturnsError TransportError)) ''t1''"
      and tbl = "[saved_row (sample_env None ''t0'') ''re_old'']" and e = TransportError
      and st = "initial_admin\<lparr>resendApiKey := ''re_new''\<rparr>", OF _ _ refl]
  by (simp add: sample_env_def saved_row_def with_key_def initial_admin_def handleSave_def Let_def
      reading_def writing_def insert_setting_def)

text \<open>
  Claim C8. When no row has the key, the lookup answers no data and no error, and the load
  only ends the fetching state: the input value stays and nothing is logged. A failed
  load (an error response or a rejected await) ends in the same state as the absent
  row; the input value and the message are untouched, and one console entry is written.
\<close>

theorem loadSettings_absent_or_failed:
  assumes absent: "with_key ''resend_api_key'' tbl = []"
    and ra: "r_absent = loadSettings (Resolved (select_value tbl ''resend_api_key'')) st"
    and fl: "failed result"
    and rf: "r_failed = loadSettings result st"
  shows "select_value tbl ''resend_api_key'' = Response None None \<and>
         final r_absent = st\<lparr>fetching := False\<rparr> \<and> console r_absent = [] \<and>
         final r_failed = final r_absent \<and>
         resendApiKey (final r_failed) = resendApiKey st \<and>
         message (final r_failed) = message st \<and>
         length (console r_failed) = 1"
proof -
  have sel: "select_value tbl ''resend_api_key'' = Response None None"
    by (simp add: select_value_def absent maybeSingle_def)
  have a: "final r_absent = st\<lparr>fetching := False\<rparr> \<and> console r_absent = []"
    by (simp add: ra sel loadSettings_def)
  have f: "final r_failed = st\<lparr>fetching := False\<rparr> \<and> length (console r_failed) = 1"
  proof (cases result)
    case Rejected
    then show ?thesis by (simp add: rf loadSettings_def)
  next
    case (Resolved resp)
    with fl obtain d e where "resp = Response d (Some e)"
      by (cases resp) (auto simp: failed_def)
    with Resolved show ?thesis by (simp add: rf loadSettings_def)
  qed
  from sel a f show ?thesis by simp
qed

theorem loadSettings_absent_or_failed_witness:
  "final (loadSettings (Resolved (Response None (Some TransportError)))
            (initial_admin\<lparr>resendApiKey := ''typed''\<rparr>))
     = final (loadSettings (Resolved (select_value [] ''resend_api_key''))
                (initial_admin\<lparr>resendApiKey := ''typed''\<rparr>)) \<and>
   resendApiKey (final (loadSettings (Resolved (Response None (Some TransportError)))
            (initial_admin\<lparr>resendApiKey := ''typed''\<rparr>))) = ''typed'' \<and>
   message (final (loadSettings (Resolved (Response None (Some TransportError)))
            (initial_admin\<lparr>resendApiKey := ''typed''\<rparr>))) = None"
proof -
  have absent: "with_key ''resend_api_key'' [] = []"
    by (simp add: with_key_def)
  have fl: "failed (Resolved (Response (None :: string option) (Some TransportError)))"
    by (simp add: failed_def)
  let ?st = "initial_admin\<lparr>resendApiKey := ''typed''\<rparr>"
  let ?failed = "loadSettings (Resolved (Response None (Some TransportError))) ?st"
  from loadSettings_absent_or_failed [OF absent refl fl refl, of ?st]
  have same: "final ?failed = final (loadSettings (Resolved (select_value [] ''resend_api_key'')) ?st)"
    and kept: "resendApiKey (final ?failed) = resendApiKey ?st"
    and quiet: "message (final ?failed) = message ?st"
    by blast+
  from kept have "resendApiKey (final ?failed) = ''typed''" by simp
  moreover from quiet have "message (final ?failed) = None" by (simp add: initial_admin_def)
  ultimately show ?thesis using same by blast
qed

end
